theory Spec2Isabelle
  imports Complex_Main
begin

section \<open>Session store (App.tsx)\<close>

text \<open>
  The root component keeps one piece of hook state, \<open>isAuthenticated\<close>, and reads and
  writes two entries of the browser's \<open>localStorage\<close>. Storage is a map from keys to
  string values; \<open>getItem\<close> answers \<open>null\<close> (here \<open>None\<close>) for a missing key.
\<close>

type_synonym storage = "string \<rightharpoonup> string"

record app =
  isAuthenticated :: bool
  localStorage :: storage

definition getItem :: "storage \<Rightarrow> string \<Rightarrow> string option" where
  "getItem st k = st k"

definition setItem :: "storage \<Rightarrow> string \<Rightarrow> string \<Rightarrow> storage" where
  "setItem st k v = st(k \<mapsto> v)"

definition removeItem :: "storage \<Rightarrow> string \<Rightarrow> storage" where
  "removeItem st k = st(k := None)"

text \<open>JavaScript's \<open>!!token\<close> for a \<open>string | null\<close>: \<open>null\<close> and \<open>''\<close> are falsy.\<close>

definition truthy :: "string option \<Rightarrow> bool" where
  "truthy token = (case token of None \<Rightarrow> False | Some s \<Rightarrow> s \<noteq> [])"

text \<open>\<open>useState(false)\<close>: the hook state of the first render, over the storage found.\<close>

definition App_init :: "storage \<Rightarrow> app" where
  "App_init st = \<lparr>isAuthenticated = False, localStorage = st\<rparr>"

text \<open>The body of the mount effect (\<open>useEffect(() => {...}, [])\<close>).\<close>

definition initialize :: "app \<Rightarrow> app" where
  "initialize s =
     (let token = getItem (localStorage s) ''access_token''
      in s\<lparr>isAuthenticated := truthy token\<rparr>)"

definition handleLogin :: "string \<Rightarrow> string \<Rightarrow> app \<Rightarrow> app" where
  "handleLogin token refreshToken s =
     (let st1 = setItem (localStorage s) ''access_token'' token;
          st2 = setItem st1 ''refresh_token'' refreshToken
      in s\<lparr>localStorage := st2, isAuthenticated := True\<rparr>)"

definition handleLogout :: "app \<Rightarrow> app" where
  "handleLogout s =
     (let st1 = removeItem (localStorage s) ''access_token'';
          st2 = removeItem st1 ''refresh_token''
      in s\<lparr>localStorage := st2, isAuthenticated := False\<rparr>)"

text \<open>The session as the spec reads it: the flag and the two persisted tokens.\<close>

definition accessToken :: "app \<Rightarrow> string option" where
  "accessToken s = getItem (localStorage s) ''access_token''"

definition refreshToken :: "app \<Rightarrow> string option" where
  "refreshToken s = getItem (localStorage s) ''refresh_token''"

definition session :: "app \<Rightarrow> bool \<times> string option \<times> string option" where
  "session s = (isAuthenticated s, accessToken s, refreshToken s)"

text \<open>Sequences of session operations.\<close>

datatype session_op = Initialize | Login string string | Logout

fun apply_session_op :: "app \<Rightarrow> session_op \<Rightarrow> app" where
  "apply_session_op s Initialize = initialize s"
| "apply_session_op s (Login a r) = handleLogin a r s"
| "apply_session_op s Logout = handleLogout s"

fun run_session :: "app \<Rightarrow> session_op list \<Rightarrow> app" where
  "run_session s [] = s"
| "run_session s (x # xs) = run_session (apply_session_op s x) xs"

text \<open>The precondition of \<open>login\<close>: both arguments are non-empty strings.\<close>

fun nonempty_args :: "session_op \<Rightarrow> bool" where
  "nonempty_args (Login a r) = (a \<noteq> [] \<and> r \<noteq> [])"
| "nonempty_args _ = True"

definition session_consistent :: "app \<Rightarrow> bool" where
  "session_consistent s =
     ((isAuthenticated s = (accessToken s \<noteq> None)) \<and>
      ((accessToken s = None) = (refreshToken s = None)))"

text \<open>The invariant that carries the induction: a stored access token is never empty.\<close>

definition session_inv :: "app \<Rightarrow> bool" where
  "session_inv s = (session_consistent s \<and> accessToken s \<noteq> Some [])"

section \<open>Route guard (App.tsx)\<close>

datatype page =
  LoginPage | RegisterPage | DashboardPage | UploadPage | RiskAssessmentPage
  | ReportsPage | SettingsPage

text \<open>A route's element: a page, or \<open><Navigate to=... replace />\<close>.\<close>

datatype element = Page page | Navigate string

type_synonym route = "string \<times> element"

text \<open>
  The router's matching is library code (react-router v6, \<open><Routes>\<close> without a
  \<open>caseSensitive\<close> prop). It compiles a route's path to a regular expression with
  the \<open>i\<close> flag and tests the location's pathname against it:
  \<^item> the path loses its trailing slashes and gets exactly one leading slash;
  \<^item> a path without a splat is compiled to \<open>^base\/*$\<close>: the pathname is the base,
    letters compared without case, followed by any number of slashes;
  \<^item> the path \<open>*\<close> is compiled to \<open>^/(.*)$\<close>: the pathname starts with a slash, and
    the rest holds no line terminator, which \<open>.\<close> does not match.
  Only these two shapes occur in the tables below. The \<open>i\<close> flag folds the ASCII
  letters and no other character onto them. Strings are byte strings, so the line
  terminators U+2028 and U+2029 appear as their three UTF-8 bytes.
\<close>

definition is_slash :: "char \<Rightarrow> bool" where
  "is_slash c = (c = CHR ''/'')"

definition ascii_lower :: "char \<Rightarrow> char" where
  "ascii_lower c =
     (case map_of (zip ''ABCDEFGHIJKLMNOPQRSTUVWXYZ'' ''abcdefghijklmnopqrstuvwxyz'') c of
        Some l \<Rightarrow> l
      | None \<Rightarrow> c)"

fun has_line_terminator :: "string \<Rightarrow> bool" where
  "has_line_terminator [] = False"
| "has_line_terminator (c # cs) =
     (c = CHR 0x0A \<or> c = CHR 0x0D \<or>
      (c = CHR 0xE2 \<and>
         (take 2 cs = [CHR 0x80, CHR 0xA8] \<or> take 2 cs = [CHR 0x80, CHR 0xA9])) \<or>
      has_line_terminator cs)"

definition strip_trailing_slashes :: "string \<Rightarrow> string" where
  "strip_trailing_slashes p = rev (dropWhile is_slash (rev p))"

definition compilePath :: "string \<Rightarrow> string" where
  "compilePath pattern = ''/'' @ dropWhile is_slash (strip_trailing_slashes pattern)"

definition matchPath :: "string \<Rightarrow> string \<Rightarrow> bool" where
  "matchPath pattern pathname =
     (if pattern = ''*'' then
        (case pathname of
           [] \<Rightarrow> False
         | c # rest \<Rightarrow> c = CHR ''/'' \<and> \<not> has_line_terminator rest)
      else
        (let base = compilePath pattern
         in map ascii_lower (take (length base) pathname) = map ascii_lower base \<and>
            list_all is_slash (drop (length base) pathname)))"

text \<open>
  The router ranks the routes of a table before matching: a route with a static
  segment comes before \<open>/\<close>, and \<open>*\<close> comes last. No pathname matches two of the
  other paths of a table, so taking the first match in the order written, where
  \<open>*\<close> is last, finds the same route.
\<close>

fun Routes :: "route list \<Rightarrow> string \<Rightarrow> element option" where
  "Routes [] pathname = None"
| "Routes ((pattern, el) # rs) pathname =
     (if matchPath pattern pathname then Some el else Routes rs pathname)"

definition public_routes :: "route list" where
  "public_routes =
     [(''/login'', Page LoginPage),
      (''/register'', Page RegisterPage),
      (''*'', Navigate ''/login'')]"

definition protected_routes :: "route list" where
  "protected_routes =
     [(''/'', Page DashboardPage),
      (''/upload'', Page UploadPage),
      (''/risk'', Page RiskAssessmentPage),
      (''/reports'', Page ReportsPage),
      (''/settings'', Page SettingsPage),
      (''*'', Navigate ''/'')]"

text \<open>What \<open>App\<close> returns: the bare public routes, or the routes inside \<open>Layout\<close>.\<close>

datatype tree = Bare "element option" | Layout "element option"

definition App_render :: "app \<Rightarrow> string \<Rightarrow> tree" where
  "App_render s pathname =
     (if \<not> isAuthenticated s then Bare (Routes public_routes pathname)
      else Layout (Routes protected_routes pathname))"

text \<open>
  A location's pathname, as the browser gives it to the router: it starts with a
  slash and holds no line terminator.
\<close>

definition is_pathname :: "string \<Rightarrow> bool" where
  "is_pathname p =
     (case p of
        [] \<Rightarrow> False
      | c # rest \<Rightarrow> c = CHR ''/'' \<and> \<not> has_line_terminator rest)"

text \<open>
  The comparison the route policy is stated with, written apart from the matcher:
  ASCII letters lowered and trailing slashes dropped, a pathname of slashes only
  being \<open>/\<close>.
\<close>

definition normalise_pathname :: "string \<Rightarrow> string" where
  "normalise_pathname p =
     (let q = strip_trailing_slashes (map ascii_lower p) in if q = [] then ''/'' else q)"

text \<open>
  Mounting: the component body runs first, with the state \<open>useState(false)\<close> gives,
  and returns the first tree; the effect passed to \<open>useEffect\<close> runs after that
  render is committed, and the state it sets is seen by the renders that follow.
\<close>

record mount =
  first_render :: tree
  after_effect :: app

definition App_mount :: "storage \<Rightarrow> string \<Rightarrow> mount" where
  "App_mount st pathname =
     (let s0 = App_init st;
          t0 = App_render s0 pathname;
          s1 = initialize s0
      in \<lparr>first_render = t0, after_effect = s1\<rparr>)"

section \<open>JavaScript values and the API client\<close>

text \<open>
  Values the pages receive untyped (\<open>any\<close>): response bodies and the fields of a
  caught error.
\<close>

datatype js_value =
  JUndefined | JNull | JBool bool | JNum real | JStr string
  | JArray "js_value list" | JObject "(string \<times> js_value) list"

fun js_truthy :: "js_value \<Rightarrow> bool" where
  "js_truthy JUndefined = False"
| "js_truthy JNull = False"
| "js_truthy (JBool b) = b"
| "js_truthy (JNum n) = (n \<noteq> 0)"
| "js_truthy (JStr s) = (s \<noteq> [])"
| "js_truthy (JArray _) = True"
| "js_truthy (JObject _) = True"

text \<open>\<open>a || b\<close>.\<close>

definition js_or :: "js_value \<Rightarrow> js_value \<Rightarrow> js_value" where
  "js_or a b = (if js_truthy a then a else b)"


text \<open>
  A rejected request, as the \<open>catch\<close> blocks read it: \<open>err.response?.data?.detail\<close>
  (\<open>undefined\<close> when any link of the chain is missing) and \<open>err.message\<close>.
\<close>

record axios_error =
  detail :: js_value
  message :: js_value

record request =
  url :: string
  body :: "(string \<times> string) list"

text \<open>
  The body of a fulfilled \<open>POST /auth/login\<close>, read at the two fields passed to
  \<open>onLogin\<close>, whose signature makes them strings. The body of a fulfilled
  \<open>POST /auth/register\<close> is never read.
\<close>

record response_data =
  access_token :: string
  refresh_token :: string

text \<open>The server, as one run of a handler sees it: each request is fulfilled or rejected.\<close>

type_synonym api = "request \<Rightarrow> axios_error + response_data"

text \<open>
  What a submit handler did besides updating its page: the requests it sent, its
  calls of the \<open>onLogin\<close> prop and its calls of \<open>navigate\<close>, each in order.
\<close>

record 'p effects =
  page_state :: 'p
  requests :: "request list"
  onLogin_calls :: "(string \<times> string) list"
  navigated :: "string list"

text \<open>\<open>App\<close> passes \<open>handleLogin\<close> as \<open>onLogin\<close> to both public pages.\<close>

fun App_onLogin :: "(string \<times> string) list \<Rightarrow> app \<Rightarrow> app" where
  "App_onLogin [] s = s"
| "App_onLogin ((token, refresh) # calls) s =
     App_onLogin calls (handleLogin token refresh s)"

section \<open>Login page (Login.tsx)\<close>

record Login_state =
  login_email :: string
  login_password :: string
  showPassword :: bool
  login_error :: js_value
  login_loading :: bool

definition Login_request :: "Login_state \<Rightarrow> request" where
  "Login_request pg =
     \<lparr>url = ''/auth/login'',
      body = [(''email'', login_email pg), (''password'', login_password pg)]\<rparr>"

definition Login_handleSubmit :: "api \<Rightarrow> Login_state \<Rightarrow> Login_state effects" where
  "Login_handleSubmit api pg =
     (let pg1 = pg\<lparr>login_error := JStr '''', login_loading := True\<rparr>;
          req = Login_request pg
      in case api req of
           Inr response \<Rightarrow>
             \<lparr>page_state = pg1\<lparr>login_loading := False\<rparr>,
              requests = [req],
              onLogin_calls = [(access_token response, refresh_token response)],
              navigated = [''/'']\<rparr>
         | Inl err \<Rightarrow>
             \<lparr>page_state = pg1\<lparr>login_error :=
                  js_or (detail err) (JStr ''Login failed. Please try again.''),
                login_loading := False\<rparr>,
              requests = [req],
              onLogin_calls = [],
              navigated = []\<rparr>)"

section \<open>Register page (Register.tsx)\<close>

record form_data =
  email :: string
  password :: string
  confirmPassword :: string
  company_name :: string
  industry_type :: string

record Register_state =
  formData :: form_data
  register_error :: string
  register_loading :: bool

definition Register_request :: "form_data \<Rightarrow> request" where
  "Register_request fd =
     \<lparr>url = ''/auth/register'',
      body = [(''email'', email fd), (''password'', password fd),
              (''company_name'', company_name fd), (''industry_type'', industry_type fd)]\<rparr>"

definition AutoLogin_request :: "form_data \<Rightarrow> request" where
  "AutoLogin_request fd =
     \<lparr>url = ''/auth/login'',
      body = [(''email'', email fd), (''password'', password fd)]\<rparr>"

text \<open>
  The \<open>catch\<close> and \<open>finally\<close> blocks. \<open>JSON.stringify\<close> is library code and is a
  parameter.
\<close>

definition Register_catch ::
  "(js_value \<Rightarrow> string) \<Rightarrow> axios_error \<Rightarrow> Register_state \<Rightarrow> Register_state" where
  "Register_catch stringify err pg =
     (let errorMessage =
            js_or (js_or (detail err) (message err))
              (JStr ''Registration failed. Please try again.'')
      in pg\<lparr>register_error :=
              (case errorMessage of JStr s \<Rightarrow> s | _ \<Rightarrow> stringify errorMessage),
            register_loading := False\<rparr>)"

definition Register_handleSubmit ::
  "(js_value \<Rightarrow> string) \<Rightarrow> api \<Rightarrow> Register_state \<Rightarrow> Register_state effects" where
  "Register_handleSubmit stringify api pg =
     (let pg0 = pg\<lparr>register_error := ''''\<rparr>;
          fd = formData pg
      in if password fd \<noteq> confirmPassword fd then
           \<lparr>page_state = pg0\<lparr>register_error := ''Passwords do not match''\<rparr>,
            requests = [], onLogin_calls = [], navigated = []\<rparr>
         else
           (let pg1 = pg0\<lparr>register_loading := True\<rparr>;
                registerReq = Register_request fd;
                loginReq = AutoLogin_request fd
            in case api registerReq of
                 Inl err \<Rightarrow>
                   \<lparr>page_state = Register_catch stringify err pg1,
                    requests = [registerReq], onLogin_calls = [], navigated = []\<rparr>
               | Inr _ \<Rightarrow>
                   (case api loginReq of
                      Inl err \<Rightarrow>
                        \<lparr>page_state = Register_catch stringify err pg1,
                         requests = [registerReq, loginReq],
                         onLogin_calls = [], navigated = []\<rparr>
                    | Inr loginResponse \<Rightarrow>
                        \<lparr>page_state = pg1\<lparr>register_loading := False\<rparr>,
                         requests = [registerReq, loginReq],
                         onLogin_calls =
                           [(access_token loginResponse, refresh_token loginResponse)],
                         navigated = [''/'']\<rparr>)))"

section \<open>Inline error display (Login.tsx, Register.tsx)\<close>

text \<open>
  Both pages render \<open>{error && (<Alert severity="error">{error}</Alert>)}\<close>. React
  renders a child that is a string or a number as text, renders nothing for
  \<open>undefined\<close>, \<open>null\<close> and booleans, renders the members of an array in turn, and
  throws on a plain object (\<open>None\<close>).
\<close>

datatype react_node = Nothing | Text string | Number real | Fragment "react_node list"

fun react_child :: "js_value \<Rightarrow> react_node option" where
  "react_child JUndefined = Some Nothing"
| "react_child JNull = Some Nothing"
| "react_child (JBool b) = Some Nothing"
| "react_child (JNum n) = Some (Number n)"
| "react_child (JStr s) = Some (Text s)"
| "react_child (JArray xs) = map_option Fragment (those (map react_child xs))"
| "react_child (JObject props) = None"

datatype alert = NoAlert | Alert react_node | RenderThrows

text \<open>The Login page keeps whatever \<open>setError\<close> was given; a falsy error shows no alert.\<close>

definition Login_alert :: "Login_state \<Rightarrow> alert" where
  "Login_alert st =
     (if js_truthy (login_error st) then
        (case react_child (login_error st) of
           None \<Rightarrow> RenderThrows
         | Some node \<Rightarrow> Alert node)
      else NoAlert)"

text \<open>The Register page's error is a string.\<close>

definition Register_alert :: "Register_state \<Rightarrow> alert" where
  "Register_alert st =
     (if register_error st \<noteq> [] then Alert (Text (register_error st)) else NoAlert)"

section \<open>Data pages (Dashboard.tsx, RiskAssessment.tsx, Reports.tsx)\<close>















record Reports_state =
  reports_loading :: bool
  reports :: js_value
  dialogOpen :: bool
  generating :: bool
  selectedType :: string







section \<open>Scenarios\<close>

text \<open>Concrete servers and forms, used to run the handlers.\<close>

definition rejecting_api :: api where
  "rejecting_api req =
     Inl \<lparr>detail = JStr ''Incorrect email or password'',
          message = JStr ''Request failed with status code 401''\<rparr>"

definition register_only_api :: api where
  "register_only_api req =
     (if url req = ''/auth/register'' then Inr \<lparr>access_token = '''', refresh_token = ''''\<rparr>
      else Inl \<lparr>detail = JUndefined, message = JStr ''Network Error''\<rparr>)"

definition accepting_api :: api where
  "accepting_api req = Inr \<lparr>access_token = ''tok123'', refresh_token = ''ref456''\<rparr>"

definition example_login :: Login_state where
  "example_login =
     \<lparr>login_email = ''a@b.in'', login_password = ''secret'', showPassword = False,
      login_error = JStr '''', login_loading = False\<rparr>"

definition example_form :: Register_state where
  "example_form =
     \<lparr>formData = \<lparr>email = ''a@b.in'', password = ''secret'', confirmPassword = ''secret'',
        company_name = ''Acme'', industry_type = ''services''\<rparr>,
      register_error = '''', register_loading = False\<rparr>"

definition mismatched_form :: Register_state where
  "mismatched_form =
     \<lparr>formData = \<lparr>email = ''a@b.in'', password = ''secret'', confirmPassword = ''secrte'',
        company_name = ''Acme'', industry_type = ''services''\<rparr>,
      register_error = '''', register_loading = False\<rparr>"


text \<open>
  A request that fails validation on the server: the framework answers 422 with
  \<open>detail\<close> a list of objects, one for each field at fault.
\<close>

definition validation_detail :: js_value where
  "validation_detail =
     JArray
       [JObject
          [(''type'', JStr ''value_error''),
           (''loc'', JArray [JStr ''body'', JStr ''email'']),
           (''msg'', JStr ''value is not a valid email address'')]]"

definition validation_api :: api where
  "validation_api req =
     Inl \<lparr>detail = validation_detail,
          message = JStr ''Request failed with status code 422''\<rparr>"

section \<open>Session store: properties\<close>

lemma session_inv_init: "session_inv (App_init Map.empty)"
  by (simp add: session_inv_def session_consistent_def App_init_def accessToken_def
      refreshToken_def getItem_def)

lemma session_inv_step:
  assumes "session_inv s" and "nonempty_args x"
  shows "session_inv (apply_session_op s x)"
proof (cases x)
  case Initialize
  with assms show ?thesis
    by (auto simp: session_inv_def session_consistent_def initialize_def accessToken_def
        refreshToken_def getItem_def truthy_def split: option.splits)
next
  case (Login a r)
  with assms show ?thesis
    by (simp add: session_inv_def session_consistent_def handleLogin_def accessToken_def
        refreshToken_def getItem_def setItem_def)
next
  case Logout
  with assms show ?thesis
    by (simp add: session_inv_def session_consistent_def handleLogout_def accessToken_def
        refreshToken_def getItem_def removeItem_def)
qed

lemma session_inv_run:
  "session_inv s \<Longrightarrow> list_all nonempty_args xs \<Longrightarrow> session_inv (run_session s xs)"
proof (induction xs arbitrary: s)
  case Nil
  then show ?case by simp
next
  case (Cons x xs)
  from Cons.prems have "session_inv (apply_session_op s x)"
    by (simp add: session_inv_step)
  with Cons show ?case by simp
qed

text \<open>
  C1. In every state reached from the initial state over empty storage by
  \<open>initialize\<close>, \<open>login\<close> with non-empty arguments and \<open>logout\<close>, the flag
  \<open>isAuthenticated\<close> holds exactly when an access token is persisted, and the access
  token and the refresh token are both present or both absent.
\<close>

theorem session_invariant_reachable:
  assumes "list_all nonempty_args ops"
  shows "session_consistent (run_session (App_init Map.empty) ops)"
  using session_inv_run [OF session_inv_init assms] by (simp add: session_inv_def)

theorem session_invariant_reachable_witness:
  "list_all nonempty_args [Login ''tok123'' ''ref456'', Initialize, Logout, Initialize,
     Login ''a'' ''r''] \<and>
   session_consistent (run_session (App_init Map.empty)
     [Login ''tok123'' ''ref456'', Initialize, Logout, Initialize, Login ''a'' ''r''])"
  using session_invariant_reachable
    [of "[Login ''tok123'' ''ref456'', Initialize, Logout, Initialize, Login ''a'' ''r'']"]
  by simp

text \<open>
  C4. Round trip: after \<open>login(a, r)\<close> with non-empty \<open>a\<close> and \<open>r\<close>, running
  \<open>initialize\<close> again over the same storage (a reload starts from
  \<open>useState(false)\<close>) gives an authenticated state whose persisted tokens are still
  \<open>a\<close> and \<open>r\<close>.
\<close>

theorem login_reload_roundtrip:
  assumes "a \<noteq> []" and "r \<noteq> []"
  shows "session (initialize (App_init (localStorage (handleLogin a r s)))) =
           (True, Some a, Some r) \<and>
         session (initialize (handleLogin a r s)) = (True, Some a, Some r)"
  using assms
  by (simp add: session_def initialize_def App_init_def handleLogin_def accessToken_def
      refreshToken_def getItem_def setItem_def truthy_def)

theorem login_reload_roundtrip_witness:
  "''tok123'' \<noteq> [] \<and> ''ref456'' \<noteq> [] \<and>
   session (initialize (App_init (localStorage
     (handleLogin ''tok123'' ''ref456'' (App_init Map.empty))))) =
     (True, Some ''tok123'', Some ''ref456'')"
  using login_reload_roundtrip [of "''tok123''" "''ref456''" "App_init Map.empty"]
  by simp

text \<open>
  C8. \<open>logout\<close> is idempotent: twice is the same as once from any state, and from
  a logged-out state (flag false, neither token stored) it changes nothing; the
  session stays \<open>(false, null, null)\<close>.
\<close>

theorem logout_idempotent:
  "handleLogout (handleLogout s) = handleLogout s \<and>
   (session s = (False, None, None) \<longrightarrow>
      handleLogout s = s \<and> session (handleLogout s) = (False, None, None))"
proof (intro conjI impI)
  show "handleLogout (handleLogout s) = handleLogout s"
    by (simp add: handleLogout_def removeItem_def)
next
  assume out: "session s = (False, None, None)"
  then have "(localStorage s)(''access_token'' := None, ''refresh_token'' := None) =
      localStorage s"
    by (auto simp: session_def accessToken_def refreshToken_def getItem_def)
  with out show "handleLogout s = s"
    by (simp add: handleLogout_def removeItem_def session_def)
  with out show "session (handleLogout s) = (False, None, None)"
    by simp
qed

theorem logout_idempotent_witness:
  "session (App_init [''theme'' \<mapsto> ''dark'']) = (False, None, None) \<and>
   handleLogout (App_init [''theme'' \<mapsto> ''dark'']) = App_init [''theme'' \<mapsto> ''dark'']"
proof -
  have "session (App_init [''theme'' \<mapsto> ''dark'']) = (False, None, None)"
    by (simp add: session_def App_init_def accessToken_def refreshToken_def getItem_def)
  with logout_idempotent [of "App_init [''theme'' \<mapsto> ''dark'']"] show ?thesis
    by blast
qed

text \<open>
  C9. When storage holds an \<open>access_token\<close> entry whose value is the empty string,
  \<open>initialize\<close> sets \<open>isAuthenticated\<close> to false although the stored value is not
  \<open>null\<close>: the check is the token's truthiness.
\<close>

theorem initialize_empty_token:
  assumes "getItem (localStorage s) ''access_token'' = Some ''''"
  shows "isAuthenticated (initialize s) = False \<and> accessToken (initialize s) \<noteq> None"
  using assms by (simp add: initialize_def truthy_def accessToken_def)

theorem initialize_empty_token_witness:
  "getItem (localStorage (App_init [''access_token'' \<mapsto> ''''])) ''access_token'' = Some '''' \<and>
   isAuthenticated (initialize (App_init [''access_token'' \<mapsto> ''''])) = False"
proof -
  have h: "getItem (localStorage (App_init [''access_token'' \<mapsto> ''''])) ''access_token'' =
      Some ''''"
    by (simp add: App_init_def getItem_def)
  from initialize_empty_token [OF h] h show ?thesis by simp
qed

section \<open>Route guard: properties\<close>

lemma ascii_lower_slash: "ascii_lower c = CHR ''/'' \<longleftrightarrow> c = CHR ''/''"
  by (auto simp: ascii_lower_def split: option.splits if_splits)

lemma is_slash_lower: "is_slash (ascii_lower c) = is_slash c"
  by (simp add: is_slash_def ascii_lower_slash)

lemma strip_append_slashes:
  assumes "base \<noteq> []" and "\<not> is_slash (last base)" and "list_all is_slash d"
  shows "strip_trailing_slashes (base @ d) = base"
proof -
  have "dropWhile is_slash (rev d @ rev base) = dropWhile is_slash (rev base)"
    using assms(3) by (simp add: dropWhile_append1 dropWhile_append list_all_iff)
  moreover have "dropWhile is_slash (rev base) = rev base"
    using assms(1,2) by (cases "rev base") (auto simp: last_rev hd_rev)
  ultimately show ?thesis by (simp add: strip_trailing_slashes_def)
qed

lemma strip_decompose:
  "\<exists>d. xs = strip_trailing_slashes xs @ d \<and> list_all is_slash d"
proof -
  have "rev xs = takeWhile is_slash (rev xs) @ dropWhile is_slash (rev xs)" by simp
  then have "xs = rev (dropWhile is_slash (rev xs)) @ rev (takeWhile is_slash (rev xs))"
    by (metis rev_append rev_rev_ident)
  moreover have "list_all is_slash (rev (takeWhile is_slash (rev xs)))"
    by (auto simp: list_all_iff dest: set_takeWhileD)
  ultimately show ?thesis unfolding strip_trailing_slashes_def by blast
qed

lemma strip_no_trailing_slash:
  "strip_trailing_slashes xs \<noteq> [] \<Longrightarrow> \<not> is_slash (last (strip_trailing_slashes xs))"
  unfolding strip_trailing_slashes_def
  by (metis hd_dropWhile last_rev rev_is_Nil_conv)

text \<open>The compiled expression of a static path, against the normal form.\<close>

lemma match_base:
  assumes "base \<noteq> []" and "\<not> is_slash (last base)"
  shows "(map ascii_lower (take (length base) p) = base \<and>
          list_all is_slash (drop (length base) p)) \<longleftrightarrow>
         strip_trailing_slashes (map ascii_lower p) = base"
proof
  assume a: "map ascii_lower (take (length base) p) = base \<and>
          list_all is_slash (drop (length base) p)"
  have "map ascii_lower p = map ascii_lower (take (length base) p) @
      map ascii_lower (drop (length base) p)"
    by (metis append_take_drop_id map_append)
  moreover have "list_all is_slash (map ascii_lower (drop (length base) p))"
    using a by (simp add: list_all_iff is_slash_lower)
  ultimately show "strip_trailing_slashes (map ascii_lower p) = base"
    using a assms by (simp add: strip_append_slashes)
next
  assume b: "strip_trailing_slashes (map ascii_lower p) = base"
  from strip_decompose [of "map ascii_lower p"] b
  obtain d where d: "map ascii_lower p = base @ d" "list_all is_slash d" by auto
  have "take (length base) (map ascii_lower p) = base" using d by simp
  then have t: "map ascii_lower (take (length base) p) = base" by (simp add: take_map)
  have "drop (length base) (map ascii_lower p) = d" using d by simp
  then have "map ascii_lower (drop (length base) p) = d" by (simp add: drop_map)
  with d(2) have "list_all is_slash (drop (length base) p)"
    by (auto simp: list_all_iff is_slash_lower)
  with t show "map ascii_lower (take (length base) p) = base \<and>
          list_all is_slash (drop (length base) p)" by simp
qed

lemma match_root:
  assumes "p \<noteq> []"
  shows "(map ascii_lower (take (Suc 0) p) = ''/'' \<and> list_all is_slash (drop (Suc 0) p)) \<longleftrightarrow>
         strip_trailing_slashes (map ascii_lower p) = []"
proof -
  obtain c cs where p: "p = c # cs" using assms by (cases p) auto
  have "strip_trailing_slashes (map ascii_lower p) = [] \<longleftrightarrow> list_all is_slash p"
    by (auto simp: strip_trailing_slashes_def dropWhile_eq_Nil_conv list_all_iff is_slash_lower)
  then show ?thesis by (auto simp: p ascii_lower_slash is_slash_def)
qed

lemma matchPath_star: "matchPath ''*'' p = is_pathname p"
  by (simp add: matchPath_def is_pathname_def)

lemma matchPath_static:
  assumes "pat \<in> {''/login'', ''/register'', ''/upload'', ''/risk'', ''/reports'', ''/settings''}"
  shows "matchPath pat p = (normalise_pathname p = pat)"
proof -
  have c: "compilePath pat = pat" "pat \<noteq> ''*''" "map ascii_lower pat = pat"
    "pat \<noteq> []" "\<not> is_slash (last pat)" "pat \<noteq> ''/''"
    using assms
    by (auto simp: compilePath_def strip_trailing_slashes_def is_slash_def ascii_lower_def)
  have "matchPath pat p = (strip_trailing_slashes (map ascii_lower p) = pat)"
    using c match_base [of pat p] by (simp add: matchPath_def)
  also have "\<dots> = (normalise_pathname p = pat)"
    using c by (auto simp: normalise_pathname_def Let_def)
  finally show ?thesis .
qed

lemma matchPath_root:
  assumes "p \<noteq> []"
  shows "matchPath ''/'' p = (normalise_pathname p = ''/'')"
proof -
  have c: "compilePath ''/'' = ''/''"
    by (simp add: compilePath_def strip_trailing_slashes_def is_slash_def)
  have "matchPath ''/'' p = (strip_trailing_slashes (map ascii_lower p) = [])"
    using match_root [OF assms] by (simp add: matchPath_def c ascii_lower_def)
  also have "\<dots> = (normalise_pathname p = ''/'')"
    using strip_no_trailing_slash [of "map ascii_lower p"]
    by (auto simp: normalise_pathname_def Let_def is_slash_def)
  finally show ?thesis .
qed

lemma Routes_public:
  "Routes public_routes p =
     (if normalise_pathname p = ''/login'' then Some (Page LoginPage)
      else if normalise_pathname p = ''/register'' then Some (Page RegisterPage)
      else if is_pathname p then Some (Navigate ''/login'')
      else None)"
  by (simp add: public_routes_def matchPath_static matchPath_star)

lemma Routes_protected:
  assumes "p \<noteq> []"
  shows "Routes protected_routes p =
     (if normalise_pathname p = ''/'' then Some (Page DashboardPage)
      else if normalise_pathname p = ''/upload'' then Some (Page UploadPage)
      else if normalise_pathname p = ''/risk'' then Some (Page RiskAssessmentPage)
      else if normalise_pathname p = ''/reports'' then Some (Page ReportsPage)
      else if normalise_pathname p = ''/settings'' then Some (Page SettingsPage)
      else if is_pathname p then Some (Navigate ''/'')
      else None)"
  using assms by (simp add: protected_routes_def matchPath_static matchPath_root matchPath_star)

lemmas pathname_eval =
  normalise_pathname_def strip_trailing_slashes_def is_slash_def ascii_lower_def
  is_pathname_def

text \<open>
  C2, as stated, has every pathname other than \<open>/login\<close> and \<open>/register\<close> redirect
  while \<open>isAuthenticated\<close> is false, and every pathname other than the five
  protected paths redirect while it is true. The router compares without case and
  lets trailing slashes pass: \<open>/Login\<close> renders the login page, and \<open>/upload/\<close>
  renders the upload page inside the shell.
\<close>

theorem route_guard_literal_paths_counterexample:
  "\<not> isAuthenticated (App_init Map.empty) \<and>
   ''/Login'' \<notin> {''/login'', ''/register''} \<and>
   App_render (App_init Map.empty) ''/Login'' = Bare (Some (Page LoginPage)) \<and>
   isAuthenticated (handleLogin ''tok123'' ''ref456'' (App_init Map.empty)) \<and>
   ''/upload/'' \<notin> {''/'', ''/upload'', ''/risk'', ''/reports'', ''/settings''} \<and>
   App_render (handleLogin ''tok123'' ''ref456'' (App_init Map.empty)) ''/upload/'' =
     Layout (Some (Page UploadPage))"
  by (simp add: App_render_def App_init_def handleLogin_def Routes_public Routes_protected
      pathname_eval)

text \<open>
  C2, amended. Pathnames are compared with ASCII letters lowered and trailing
  slashes dropped. For every pathname (a string that starts with a slash and holds
  no line terminator): while \<open>isAuthenticated\<close> is false, \<open>/login\<close> and \<open>/register\<close>
  render their pages and every other pathname redirects to \<open>/login\<close>; while it is
  true, exactly the five protected paths render their pages inside the shell and
  every other pathname redirects to \<open>/\<close>. In particular the seven paths as written
  render their pages, and \<open>/login\<close> redirects to \<open>/\<close> once authenticated.
\<close>

theorem route_guard_policy:
  assumes "is_pathname p"
  shows
   "(\<not> isAuthenticated s \<longrightarrow>
       App_render s p = Bare (Some
         (if normalise_pathname p = ''/login'' then Page LoginPage
          else if normalise_pathname p = ''/register'' then Page RegisterPage
          else Navigate ''/login'')) \<and>
       App_render s ''/login'' = Bare (Some (Page LoginPage)) \<and>
       App_render s ''/register'' = Bare (Some (Page RegisterPage))) \<and>
    (isAuthenticated s \<longrightarrow>
       App_render s p = Layout (Some
         (if normalise_pathname p = ''/'' then Page DashboardPage
          else if normalise_pathname p = ''/upload'' then Page UploadPage
          else if normalise_pathname p = ''/risk'' then Page RiskAssessmentPage
          else if normalise_pathname p = ''/reports'' then Page ReportsPage
          else if normalise_pathname p = ''/settings'' then Page SettingsPage
          else Navigate ''/'')) \<and>
       App_render s ''/'' = Layout (Some (Page DashboardPage)) \<and>
       App_render s ''/upload'' = Layout (Some (Page UploadPage)) \<and>
       App_render s ''/risk'' = Layout (Some (Page RiskAssessmentPage)) \<and>
       App_render s ''/reports'' = Layout (Some (Page ReportsPage)) \<and>
       App_render s ''/settings'' = Layout (Some (Page SettingsPage)) \<and>
       App_render s ''/login'' = Layout (Some (Navigate ''/'')))"
proof -
  from assms have ne: "p \<noteq> []"
    by (auto simp: is_pathname_def)
  have pub: "Routes public_routes p = Some
      (if normalise_pathname p = ''/login'' then Page LoginPage
       else if normalise_pathname p = ''/register'' then Page RegisterPage
       else Navigate ''/login'')"
    using assms by (simp add: Routes_public)
  have prot: "Routes protected_routes p = Some
      (if normalise_pathname p = ''/'' then Page DashboardPage
       else if normalise_pathname p = ''/upload'' then Page UploadPage
       else if normalise_pathname p = ''/risk'' then Page RiskAssessmentPage
       else if normalise_pathname p = ''/reports'' then Page ReportsPage
       else if normalise_pathname p = ''/settings'' then Page SettingsPage
       else Navigate ''/'')"
    using assms by (simp add: Routes_protected [OF ne])
  have exact_pub:
    "Routes public_routes ''/login'' = Some (Page LoginPage)"
    "Routes public_routes ''/register'' = Some (Page RegisterPage)"
    by (simp_all add: Routes_public pathname_eval)
  have exact_prot:
    "Routes protected_routes ''/'' = Some (Page DashboardPage)"
    "Routes protected_routes ''/upload'' = Some (Page UploadPage)"
    "Routes protected_routes ''/risk'' = Some (Page RiskAssessmentPage)"
    "Routes protected_routes ''/reports'' = Some (Page ReportsPage)"
    "Routes protected_routes ''/settings'' = Some (Page SettingsPage)"
    "Routes protected_routes ''/login'' = Some (Navigate ''/'')"
    by (simp_all add: Routes_protected pathname_eval)
  show ?thesis
    by (simp add: App_render_def pub prot exact_pub exact_prot)
qed

theorem route_guard_policy_witness:
  "is_pathname ''/Login/'' \<and>
   \<not> isAuthenticated (App_init Map.empty) \<and>
   App_render (App_init Map.empty) ''/Login/'' = Bare (Some (Page LoginPage)) \<and>
   is_pathname ''/reports/old'' \<and>
   isAuthenticated (handleLogin ''tok123'' ''ref456'' (App_init Map.empty)) \<and>
   App_render (handleLogin ''tok123'' ''ref456'' (App_init Map.empty)) ''/reports/old'' =
     Layout (Some (Navigate ''/''))"
proof -
  have h1: "is_pathname ''/Login/''" and h2: "is_pathname ''/reports/old''"
    by (simp_all add: is_pathname_def)
  have n1: "normalise_pathname ''/Login/'' = ''/login''"
    and n2: "normalise_pathname ''/reports/old'' = ''/reports/old''"
    by (simp_all add: pathname_eval)
  from route_guard_policy [OF h1, of "App_init Map.empty"]
    route_guard_policy [OF h2, of "handleLogin ''tok123'' ''ref456'' (App_init Map.empty)"]
    h1 h2
  show ?thesis by (simp add: n1 n2 App_init_def handleLogin_def)
qed

text \<open>
  C3, as stated, would make the first tree the one the persisted credentials call
  for. It is not: with both tokens stored and \<open>/upload\<close> requested, the first tree
  is the public one, redirecting to \<open>/login\<close>.
\<close>

theorem first_render_ignores_storage:
  "truthy (getItem [''access_token'' \<mapsto> ''tok123'', ''refresh_token'' \<mapsto> ''ref456'']
      ''access_token'') \<and>
   first_render (App_mount [''access_token'' \<mapsto> ''tok123'', ''refresh_token'' \<mapsto> ''ref456'']
      ''/upload'') = Bare (Some (Navigate ''/login'')) \<and>
   first_render (App_mount [''access_token'' \<mapsto> ''tok123'', ''refresh_token'' \<mapsto> ''ref456'']
      ''/upload'') \<noteq>
   App_render (after_effect
      (App_mount [''access_token'' \<mapsto> ''tok123'', ''refresh_token'' \<mapsto> ''ref456''] ''/upload''))
      ''/upload''"
  by (simp add: App_mount_def App_init_def App_render_def initialize_def truthy_def
      getItem_def Routes_public Routes_protected pathname_eval)

text \<open>
  C3, amended. The stored access token is read by the mount effect, run once, after
  the first render. The first tree is always the public one, whatever storage
  holds; the state the effect leaves has \<open>isAuthenticated\<close> equal to the truthiness of the stored
  access token and storage untouched, so every later render decides by the
  persisted credentials.
\<close>

theorem mount_reads_storage_after_first_render:
  "first_render (App_mount st p) = Bare (Routes public_routes p) \<and>
   after_effect (App_mount st p) = initialize (App_init st) \<and>
   isAuthenticated (after_effect (App_mount st p)) = truthy (getItem st ''access_token'') \<and>
   localStorage (after_effect (App_mount st p)) = st \<and>
   App_render (after_effect (App_mount st p)) q =
     (if truthy (getItem st ''access_token'') then Layout (Routes protected_routes q)
      else Bare (Routes public_routes q))"
  by (simp add: App_mount_def App_init_def App_render_def initialize_def)

section \<open>Login and Register pages: properties\<close>

lemma Login_rejected:
  assumes "api (Login_request pg) = Inl err"
  shows "Login_handleSubmit api pg =
     \<lparr>page_state = pg\<lparr>login_error :=
          js_or (detail err) (JStr ''Login failed. Please try again.''),
        login_loading := False\<rparr>,
      requests = [Login_request pg], onLogin_calls = [], navigated = []\<rparr>"
  using assms by (simp add: Login_handleSubmit_def)

lemma Register_rejected:
  assumes "password (formData pg) = confirmPassword (formData pg)"
    and "api (Register_request (formData pg)) = Inl err"
  shows "Register_handleSubmit stringify api pg =
     \<lparr>page_state = Register_catch stringify err pg,
      requests = [Register_request (formData pg)], onLogin_calls = [], navigated = []\<rparr>"
  using assms by (simp add: Register_handleSubmit_def Register_catch_def Let_def)

lemma Register_accepted:
  assumes "password (formData pg) = confirmPassword (formData pg)"
    and "api (Register_request (formData pg)) = Inr reply"
  shows "Register_handleSubmit stringify api pg =
     (case api (AutoLogin_request (formData pg)) of
        Inl err \<Rightarrow>
          \<lparr>page_state = Register_catch stringify err pg,
           requests = [Register_request (formData pg), AutoLogin_request (formData pg)],
           onLogin_calls = [], navigated = []\<rparr>
      | Inr loginResponse \<Rightarrow>
          \<lparr>page_state = pg\<lparr>register_error := '''', register_loading := False\<rparr>,
           requests = [Register_request (formData pg), AutoLogin_request (formData pg)],
           onLogin_calls = [(access_token loginResponse, refresh_token loginResponse)],
           navigated = [''/'']\<rparr>)"
  using assms
  by (simp add: Register_handleSubmit_def Register_catch_def Let_def split: sum.splits)

text \<open>
  A rejected credential exchange leaves the session alone. Whichever request is
  rejected (the Login page's \<open>POST /auth/login\<close>, the Register page's
  \<open>POST /auth/register\<close>, or its \<open>POST /auth/login\<close> after a fulfilled
  registration), the handler calls neither \<open>onLogin\<close> nor \<open>navigate\<close>, so the flag
  and the persisted tokens are what they were.
\<close>

lemma rejected_exchange_leaves_session:
  "(api (Login_request lp) = Inl err \<longrightarrow>
      onLogin_calls (Login_handleSubmit api lp) = [] \<and>
      navigated (Login_handleSubmit api lp) = [] \<and>
      App_onLogin (onLogin_calls (Login_handleSubmit api lp)) s = s) \<and>
   (password (formData rp) = confirmPassword (formData rp) \<and>
    api (Register_request (formData rp)) = Inl err \<longrightarrow>
      onLogin_calls (Register_handleSubmit stringify api rp) = [] \<and>
      navigated (Register_handleSubmit stringify api rp) = [] \<and>
      App_onLogin (onLogin_calls (Register_handleSubmit stringify api rp)) s = s) \<and>
   (password (formData rp) = confirmPassword (formData rp) \<and>
    api (Register_request (formData rp)) = Inr reply \<and>
    api (AutoLogin_request (formData rp)) = Inl err \<longrightarrow>
      onLogin_calls (Register_handleSubmit stringify api rp) = [] \<and>
      navigated (Register_handleSubmit stringify api rp) = [] \<and>
      App_onLogin (onLogin_calls (Register_handleSubmit stringify api rp)) s = s)"
proof (intro conjI impI)
  assume "api (Login_request lp) = Inl err"
  then have L: "Login_handleSubmit api lp =
     \<lparr>page_state = lp\<lparr>login_error :=
          js_or (detail err) (JStr ''Login failed. Please try again.''),
        login_loading := False\<rparr>,
      requests = [Login_request lp], onLogin_calls = [], navigated = []\<rparr>"
    by (simp add: Login_rejected)
  show "onLogin_calls (Login_handleSubmit api lp) = []" by (simp add: L)
  show "navigated (Login_handleSubmit api lp) = []" by (simp add: L)
  show "App_onLogin (onLogin_calls (Login_handleSubmit api lp)) s = s" by (simp add: L)
next
  assume "password (formData rp) = confirmPassword (formData rp) \<and>
    api (Register_request (formData rp)) = Inl err"
  then have R: "Register_handleSubmit stringify api rp =
     \<lparr>page_state = Register_catch stringify err rp,
      requests = [Register_request (formData rp)], onLogin_calls = [], navigated = []\<rparr>"
    by (simp add: Register_rejected)
  show "onLogin_calls (Register_handleSubmit stringify api rp) = []" by (simp add: R)
  show "navigated (Register_handleSubmit stringify api rp) = []" by (simp add: R)
  show "App_onLogin (onLogin_calls (Register_handleSubmit stringify api rp)) s = s"
    by (simp add: R)
next
  assume a: "password (formData rp) = confirmPassword (formData rp) \<and>
    api (Register_request (formData rp)) = Inr reply \<and>
    api (AutoLogin_request (formData rp)) = Inl err"
  then have A: "Register_handleSubmit stringify api rp =
      \<lparr>page_state = Register_catch stringify err rp,
       requests = [Register_request (formData rp), AutoLogin_request (formData rp)],
       onLogin_calls = [], navigated = []\<rparr>"
    by (simp add: Register_accepted [where reply = reply])
  show "onLogin_calls (Register_handleSubmit stringify api rp) = []" by (simp add: A)
  show "navigated (Register_handleSubmit stringify api rp) = []" by (simp add: A)
  show "App_onLogin (onLogin_calls (Register_handleSubmit stringify api rp)) s = s"
    by (simp add: A)
qed

text \<open>
  What each page shows after a rejection. The Register page's error is always a
  string: \<open>detail\<close>, else the error's \<open>message\<close>, else the fixed text, and anything
  that is not a string goes through \<open>JSON.stringify\<close>; its alert never throws. This
  covers both of its requests. The Login page's error is \<open>detail\<close> or the fixed
  text, as it came.
\<close>

lemma Register_catch_message:
  "register_error (Register_catch stringify err pg) =
     (let shown =
        (if js_truthy (detail err) then detail err
         else if js_truthy (message err) then message err
         else JStr ''Registration failed. Please try again.'')
      in case shown of JStr text \<Rightarrow> text | _ \<Rightarrow> stringify shown) \<and>
   \<not> register_loading (Register_catch stringify err pg)"
  by (simp add: Register_catch_def js_or_def Let_def)

lemma Register_alert_total: "Register_alert st \<noteq> RenderThrows"
  by (simp add: Register_alert_def)

lemma Login_alert_rejected:
  assumes "api (Login_request lp) = Inl err"
  shows "Login_alert (page_state (Login_handleSubmit api lp)) =
     (if js_truthy (detail err) then
        (case react_child (detail err) of None \<Rightarrow> RenderThrows | Some node \<Rightarrow> Alert node)
      else Alert (Text ''Login failed. Please try again.''))"
  using assms by (simp add: Login_rejected Login_alert_def js_or_def)

lemma Login_alert_string_detail:
  assumes "api (Login_request lp) = Inl err" and "detail err = JStr m" and "m \<noteq> []"
  shows "Login_alert (page_state (Login_handleSubmit api lp)) = Alert (Text m)"
  using assms by (simp add: Login_alert_rejected)

lemma Login_alert_string_example:
  "Login_alert (page_state (Login_handleSubmit rejecting_api example_login)) =
     Alert (Text ''Incorrect email or password'')"
  by (simp add: Login_alert_string_detail [where api = rejecting_api
        and err = "\<lparr>detail = JStr ''Incorrect email or password'',
          message = JStr ''Request failed with status code 401''\<rparr>"]
      rejecting_api_def)

lemma Login_alert_object_detail:
  assumes "api (Login_request lp) = Inl err" and "detail err = JObject props"
  shows "Login_alert (page_state (Login_handleSubmit api lp)) = RenderThrows"
  using assms by (simp add: Login_alert_rejected)

text \<open>
  C5. A rejected credential exchange is to leave the session unchanged and have
  the page display the response's error payload or a fallback message. The session
  is left unchanged. The display fails on the Login page when the payload is not a
  string: a request rejected with a list of validation errors as its \<open>detail\<close>
  leaves that list in the page's error, which React cannot render as a child, so
  the render throws and no message is shown. The Register page, given the same
  rejection, shows the list as JSON text.
\<close>

theorem login_object_detail_not_displayed:
  "validation_api (Login_request example_login) =
     Inl \<lparr>detail = validation_detail,
          message = JStr ''Request failed with status code 422''\<rparr> \<and>
   login_error (page_state (Login_handleSubmit validation_api example_login)) =
     validation_detail \<and>
   Login_alert (page_state (Login_handleSubmit validation_api example_login)) =
     RenderThrows \<and>
   onLogin_calls (Login_handleSubmit validation_api example_login) = [] \<and>
   register_error (page_state
     (Register_handleSubmit stringify validation_api example_form)) =
     stringify validation_detail \<and>
   Register_alert (page_state
     (Register_handleSubmit stringify validation_api example_form)) \<noteq> RenderThrows"
proof -
  have v: "validation_api (Login_request example_login) =
      Inl \<lparr>detail = validation_detail,
           message = JStr ''Request failed with status code 422''\<rparr>"
    by (simp add: validation_api_def)
  have t: "js_truthy validation_detail" and c: "react_child validation_detail = None"
    by (simp_all add: validation_detail_def)
  have L: "Login_handleSubmit validation_api example_login =
     \<lparr>page_state = example_login\<lparr>login_error := validation_detail, login_loading := False\<rparr>,
      requests = [Login_request example_login], onLogin_calls = [], navigated = []\<rparr>"
    using t by (simp add: Login_rejected [where api = validation_api, OF v] js_or_def)
  have m: "password (formData example_form) = confirmPassword (formData example_form)"
    by (simp add: example_form_def)
  have w: "validation_api (Register_request (formData example_form)) =
      Inl \<lparr>detail = validation_detail,
           message = JStr ''Request failed with status code 422''\<rparr>"
    by (simp add: validation_api_def)
  have R: "register_error (page_state
      (Register_handleSubmit stringify validation_api example_form)) =
      stringify validation_detail"
    using t
    by (simp add: Register_rejected [where api = validation_api, OF m w] Register_catch_message)
      (simp add: validation_detail_def)
  show ?thesis
    using v t c R by (simp add: L Login_alert_def Register_alert_total)
qed

text \<open>
  C6. When the password and the confirmation differ, the Register page's submit
  handler sends no request: it sets the error to the mismatch message and returns,
  with the form data and the loading flag as they were, and with no call of
  \<open>onLogin\<close> or \<open>navigate\<close>.
\<close>

theorem password_mismatch_sends_nothing:
  assumes "password (formData pg) \<noteq> confirmPassword (formData pg)"
  shows "Register_handleSubmit stringify api pg =
     \<lparr>page_state = pg\<lparr>register_error := ''Passwords do not match''\<rparr>,
      requests = [], onLogin_calls = [], navigated = []\<rparr>"
  using assms by (simp add: Register_handleSubmit_def)

theorem password_mismatch_sends_nothing_witness:
  "password (formData mismatched_form) \<noteq> confirmPassword (formData mismatched_form) \<and>
   requests (Register_handleSubmit (\<lambda>v. ''?'') accepting_api mismatched_form) = [] \<and>
   page_state (Register_handleSubmit (\<lambda>v. ''?'') accepting_api mismatched_form) =
     mismatched_form\<lparr>register_error := ''Passwords do not match''\<rparr>"
proof -
  have h: "password (formData mismatched_form) \<noteq> confirmPassword (formData mismatched_form)"
    by (simp add: mismatched_form_def)
  from password_mismatch_sends_nothing [where pg = mismatched_form
      and stringify = "\<lambda>v. ''?''" and api = accepting_api, OF h] h
  show ?thesis by simp
qed

text \<open>
  C10. After a fulfilled \<open>POST /auth/register\<close> the Register page has not touched
  the session; it sends \<open>POST /auth/login\<close> with the same email and password. Only
  when that request is fulfilled does it call \<open>onLogin\<close>, once, with the returned
  token pair, and navigate to \<open>/\<close>. When it is rejected there is no call of
  \<open>onLogin\<close> and no navigation, and the session is unchanged.
\<close>

theorem register_then_auto_login:
  assumes "password (formData pg) = confirmPassword (formData pg)"
    and "api (Register_request (formData pg)) = Inr reply"
  shows "requests (Register_handleSubmit stringify api pg) =
           [Register_request (formData pg), AutoLogin_request (formData pg)] \<and>
         AutoLogin_request (formData pg) =
           \<lparr>url = ''/auth/login'',
            body = [(''email'', email (formData pg)), (''password'', password (formData pg))]\<rparr> \<and>
         map_of (body (Register_request (formData pg))) ''email'' = Some (email (formData pg)) \<and>
         map_of (body (Register_request (formData pg))) ''password'' =
           Some (password (formData pg)) \<and>
         onLogin_calls (Register_handleSubmit stringify api pg) =
           (case api (AutoLogin_request (formData pg)) of
              Inr tokens \<Rightarrow> [(access_token tokens, refresh_token tokens)]
            | Inl err \<Rightarrow> []) \<and>
         navigated (Register_handleSubmit stringify api pg) =
           (case api (AutoLogin_request (formData pg)) of
              Inr tokens \<Rightarrow> [''/'']
            | Inl err \<Rightarrow> []) \<and>
         App_onLogin (onLogin_calls (Register_handleSubmit stringify api pg)) s =
           (case api (AutoLogin_request (formData pg)) of
              Inr tokens \<Rightarrow> handleLogin (access_token tokens) (refresh_token tokens) s
            | Inl err \<Rightarrow> s)"
proof -
  note R = Register_accepted [where pg = pg and api = api and reply = reply
      and stringify = stringify, OF assms]
  have "requests (Register_handleSubmit stringify api pg) =
      [Register_request (formData pg), AutoLogin_request (formData pg)]"
    by (simp add: R split: sum.splits)
  moreover have "AutoLogin_request (formData pg) =
      \<lparr>url = ''/auth/login'',
       body = [(''email'', email (formData pg)), (''password'', password (formData pg))]\<rparr>"
    by (simp add: AutoLogin_request_def)
  moreover have "map_of (body (Register_request (formData pg))) ''email'' =
      Some (email (formData pg))"
    by (simp add: Register_request_def)
  moreover have "map_of (body (Register_request (formData pg))) ''password'' =
      Some (password (formData pg))"
    by (simp add: Register_request_def)
  moreover have "onLogin_calls (Register_handleSubmit stringify api pg) =
      (case api (AutoLogin_request (formData pg)) of
         Inr tokens \<Rightarrow> [(access_token tokens, refresh_token tokens)]
       | Inl err \<Rightarrow> [])"
    by (simp add: R split: sum.splits)
  moreover have "navigated (Register_handleSubmit stringify api pg) =
      (case api (AutoLogin_request (formData pg)) of
         Inr tokens \<Rightarrow> [''/'']
       | Inl err \<Rightarrow> [])"
    by (simp add: R split: sum.splits)
  moreover have "App_onLogin (onLogin_calls (Register_handleSubmit stringify api pg)) s =
      (case api (AutoLogin_request (formData pg)) of
         Inr tokens \<Rightarrow> handleLogin (access_token tokens) (refresh_token tokens) s
       | Inl err \<Rightarrow> s)"
    by (simp add: R split: sum.splits)
  ultimately show ?thesis by blast
qed

theorem register_then_auto_login_witness:
  "password (formData example_form) = confirmPassword (formData example_form) \<and>
   register_only_api (Register_request (formData example_form)) =
     Inr \<lparr>access_token = '''', refresh_token = ''''\<rparr> \<and>
   requests (Register_handleSubmit (\<lambda>v. ''?'') register_only_api example_form) =
     [Register_request (formData example_form), AutoLogin_request (formData example_form)] \<and>
   onLogin_calls (Register_handleSubmit (\<lambda>v. ''?'') register_only_api example_form) = [] \<and>
   session (App_onLogin
     (onLogin_calls (Register_handleSubmit (\<lambda>v. ''?'') register_only_api example_form))
     (App_init Map.empty)) = (False, None, None)"
proof -
  have h1: "password (formData example_form) = confirmPassword (formData example_form)"
    by (simp add: example_form_def)
  have h2: "register_only_api (Register_request (formData example_form)) =
      Inr \<lparr>access_token = '''', refresh_token = ''''\<rparr>"
    by (simp add: register_only_api_def Register_request_def)
  have h3: "register_only_api (AutoLogin_request (formData example_form)) =
      Inl \<lparr>detail = JUndefined, message = JStr ''Network Error''\<rparr>"
    by (simp add: register_only_api_def AutoLogin_request_def)
  have h4: "session (App_init Map.empty) = (False, None, None)"
    by (simp add: session_def App_init_def accessToken_def refreshToken_def getItem_def)
  from register_then_auto_login [where pg = example_form and api = register_only_api
      and stringify = "\<lambda>v. ''?''" and s = "App_init Map.empty", OF h1 h2] h1 h2 h3 h4
  show ?thesis by simp
qed

section \<open>Data pages: properties\<close>






end
